theory Spec2Isabelle
  imports Complex_Main
begin

section \<open>Files\<close>

text \<open>
  The browser's \<^verbatim>\<open>File\<close> object, as far as \<^verbatim>\<open>thumbnailGenerator.ts\<close> reads it:
  \<^verbatim>\<open>file.name\<close> and \<^verbatim>\<open>file.type\<close> (the declared media type). The bytes are opaque to
  the code; \<open>content\<close> stands for them, so that two files of the same name and type
  can still decode differently.
\<close>

record File =
  name :: string
  type :: string
  content :: nat

section \<open>\<^verbatim>\<open>createThumbnailFileName\<close>\<close>

text \<open>
  \<^verbatim>\<open>videoFileName.replace(/\.[^/.]+$/, '')\<close>.

  The pattern has no flags, so \<^verbatim>\<open>$\<close> matches at the end of the input only, and the class
  \<^verbatim>\<open>[^/.]\<close> matches every character but \<^verbatim>\<open>/\<close> and \<^verbatim>\<open>.\<close>. \<open>regex_matches_at s\<close> says that
  the pattern matches at the first position of \<open>s\<close> (a match always runs to the end of \<open>s\<close>).
\<close>

definition not_slash_or_dot :: "char \<Rightarrow> bool" where
  "not_slash_or_dot c = (c \<noteq> CHR ''/'' \<and> c \<noteq> CHR ''.'')"

fun regex_matches_at :: "string \<Rightarrow> bool" where
  "regex_matches_at [] = False"
| "regex_matches_at (c # cs) = (c = CHR ''.'' \<and> cs \<noteq> [] \<and> list_all not_slash_or_dot cs)"

text \<open>
  \<^verbatim>\<open>String.prototype.replace\<close> with a non-global pattern and the replacement \<^verbatim>\<open>''\<close>: the
  start positions are tried from left to right, and the first match is cut out. Here a
  match runs to the end of the string, so what is left is the text before it.
\<close>

fun replace_extension :: "string \<Rightarrow> string" where
  "replace_extension [] = []"
| "replace_extension (c # cs) =
     (if regex_matches_at (c # cs) then [] else c # replace_extension cs)"

definition createThumbnailFileName :: "string \<Rightarrow> string" where
  "createThumbnailFileName videoFileName =
     (let nameWithoutExtension = replace_extension videoFileName
      in nameWithoutExtension @ ''-thumb.jpg'')"

section \<open>\<^verbatim>\<open>isValidVideoFile\<close>\<close>

definition validTypes :: "string list" where
  "validTypes = [''video/mp4'', ''video/webm'', ''video/ogg'', ''video/quicktime'',
     ''video/x-msvideo'']"

text \<open>\<^verbatim>\<open>validTypes.includes(file.type)\<close>: on strings, \<^verbatim>\<open>includes\<close> compares by equality.\<close>

definition isValidVideoFile :: "File \<Rightarrow> bool" where
  "isValidVideoFile f = (type f \<in> set validTypes)"

section \<open>JavaScript values\<close>

text \<open>
  A JavaScript \<^verbatim>\<open>number\<close>. The code only compares numbers and passes them on, so the
  finite ones are taken as reals; \<^verbatim>\<open>NaN\<close> and the two infinities are kept apart, since
  \<^verbatim>\<open>Math.min\<close> treats them specially. (The sign of zero is not modelled.)
\<close>

datatype number = NaN | NegInfinity | Finite real | Infinity

text \<open>JavaScript's \<^verbatim>\<open>a < b\<close>: false as soon as one side is \<^verbatim>\<open>NaN\<close>.\<close>

fun less_number :: "number \<Rightarrow> number \<Rightarrow> bool" where
  "less_number NaN b = False"
| "less_number a NaN = False"
| "less_number NegInfinity b = (b \<noteq> NegInfinity)"
| "less_number (Finite x) (Finite y) = (x < y)"
| "less_number (Finite x) Infinity = True"
| "less_number (Finite x) NegInfinity = False"
| "less_number Infinity b = False"

text \<open>\<^verbatim>\<open>Math.min(a, b)\<close>: \<^verbatim>\<open>NaN\<close> if either argument is, else the smaller one.\<close>

definition Math_min :: "number \<Rightarrow> number \<Rightarrow> number" where
  "Math_min a b = (if a = NaN \<or> b = NaN then NaN else if less_number b a then b else a)"

text \<open>
  What a \<^verbatim>\<open>throw\<close> or a \<^verbatim>\<open>reject\<close> carries: \<open>Error m\<close> is \<^verbatim>\<open>new Error(m)\<close>; a
  \<open>DOMException name message\<close> is what the canvas calls throw by themselves; a
  \<open>TypeError m\<close> is what an attribute of type \<^verbatim>\<open>double\<close> throws when it is assigned a
  number that is not finite.
\<close>

datatype exn = Error string | DOMException string string | TypeError string

datatype 'a promise = Pending | Fulfilled 'a | Rejected exn

text \<open>\<^verbatim>\<open>resolve\<close> and \<^verbatim>\<open>reject\<close> settle a pending promise and leave a settled one alone.\<close>

definition resolve :: "'a \<Rightarrow> 'a promise \<Rightarrow> 'a promise" where
  "resolve v p = (case p of Pending \<Rightarrow> Fulfilled v | _ \<Rightarrow> p)"

fun fulfilled :: "'a promise \<Rightarrow> bool" where
  "fulfilled (Fulfilled v) = True"
| "fulfilled p = False"

fun rejected :: "'a promise \<Rightarrow> bool" where
  "rejected (Rejected e) = True"
| "rejected p = False"

definition reject :: "exn \<Rightarrow> 'a promise \<Rightarrow> 'a promise" where
  "reject e p = (case p of Pending \<Rightarrow> Rejected e | _ \<Rightarrow> p)"

section \<open>\<^verbatim>\<open>generateThumbnailFromVideo\<close>\<close>

text \<open>
  A blob that \<^verbatim>\<open>canvas.toBlob\<close> hands to its callback is identified by what the encoder
  was asked to encode: the canvas bitmap (its size, and the seek position of the frame
  last drawn on it, if any), the requested media type and the quality argument.
  \<open>ObjectURL\<close> is \<^verbatim>\<open>URL.createObjectURL\<close> (that every call gives a fresh URL is not
  modelled).
\<close>

record image =
  image_width :: nat
  image_height :: nat
  image_frame :: "number option"
  image_type :: string
  image_quality :: real

datatype url = ObjectURL image

text \<open>
  The state that the promise executor and its listeners share: the \<^verbatim>\<open>video\<close> element
  (\<open>src\<close> is the file it was given, \<open>None\<close> while it has none; \<open>currentTime\<close> is its
  playback position, 0 at first), the \<^verbatim>\<open>canvas\<close> (a new canvas is 300 by 150 and blank;
  \<open>canvas_frame\<close> is the position of the video frame last drawn on it), the calls of
  \<^verbatim>\<open>toBlob\<close> made so far, and the promise.
\<close>

record extractor =
  src :: "File option"
  currentTime :: number
  canvas_width :: nat
  canvas_height :: nat
  canvas_frame :: "number option"
  toBlobCalls :: "image list"
  promise :: "url promise"

text \<open>
  What the browser does to the element, as the code sees it. \<open>LoadedMetadata w h d\<close>: the
  \<^verbatim>\<open>loadedmetadata\<close> event, with \<^verbatim>\<open>video.videoWidth\<close>, \<^verbatim>\<open>video.videoHeight\<close> and
  \<^verbatim>\<open>video.duration\<close> as the listener reads them. \<open>Seeked\<close>: the \<^verbatim>\<open>seeked\<close> event, with
  what the two canvas calls of its listener do. \<open>ToBlobCallback k ok\<close>: the encoder
  answers the \<open>k\<close>-th \<^verbatim>\<open>toBlob\<close> call, with a blob (\<open>ok\<close>) or with \<^verbatim>\<open>null\<close>.
  \<open>ErrorEvent\<close>: the \<^verbatim>\<open>error\<close> event.
\<close>

datatype seeked_outcome = DrawImageThrows exn | ToBlobThrows exn | ToBlobReturns

datatype event =
    LoadedMetadata nat nat number
  | Seeked seeked_outcome
  | ToBlobCallback nat bool
  | ErrorEvent

text \<open>
  The browser's setter of \<^verbatim>\<open>video.currentTime\<close>, for a video of the given duration. The
  attribute has the type \<^verbatim>\<open>double\<close>: a value that is not finite (\<^verbatim>\<open>NaN\<close>, an infinity)
  throws a \<^verbatim>\<open>TypeError\<close> and nothing is sought. A finite value is sought, and the seek
  puts a position after the end of the video at the end and a negative one at 0. (Where
  the decoder lands between key frames is not modelled, and the position is taken to be
  there as soon as it is set: the code reads it only after the seek.)
\<close>

definition seek_position :: "number \<Rightarrow> real \<Rightarrow> number" where
  "seek_position duration x =
     (if less_number duration (Finite x) then duration
      else if x < 0 then Finite 0 else Finite x)"

definition set_currentTime :: "number \<Rightarrow> number \<Rightarrow> extractor \<Rightarrow> exn + extractor" where
  "set_currentTime duration v s =
     (case v of
        Finite x \<Rightarrow> Inr (s\<lparr>currentTime := seek_position duration x\<rparr>)
      | _ \<Rightarrow> Inl (TypeError ''The provided double value is non-finite.''))"

text \<open>
  The \<^verbatim>\<open>loadedmetadata\<close> listener: the canvas takes the size of the video, then
  \<^verbatim>\<open>Math.min(timeInSeconds, video.duration)\<close> is assigned to \<^verbatim>\<open>video.currentTime\<close>. If the
  assignment throws, the listener ends there: nothing catches the exception, and the
  promise is left as it is.
\<close>

definition on_loadedmetadata :: "number \<Rightarrow> nat \<Rightarrow> nat \<Rightarrow> number \<Rightarrow> extractor \<Rightarrow> extractor" where
  "on_loadedmetadata timeInSeconds videoWidth videoHeight duration s =
     (let s1 = s\<lparr>canvas_width := videoWidth, canvas_height := videoHeight\<rparr>
      in case set_currentTime duration (Math_min timeInSeconds duration) s1 of
           Inr s2 \<Rightarrow> s2
         | Inl error \<Rightarrow> s1)"

text \<open>
  \<^verbatim>\<open>ctx.drawImage(video, 0, 0, canvas.width, canvas.height)\<close> puts the frame at the
  playback position of the video on the canvas; \<^verbatim>\<open>canvas.toBlob(callback, type, quality)\<close>
  asks the encoder for an image of what is on the canvas.
\<close>

definition drawImage :: "extractor \<Rightarrow> extractor" where
  "drawImage s = s\<lparr>canvas_frame := Some (currentTime s)\<rparr>"

definition toBlob :: "string \<Rightarrow> real \<Rightarrow> extractor \<Rightarrow> extractor" where
  "toBlob mime quality s =
     s\<lparr>toBlobCalls := toBlobCalls s @
         [\<lparr>image_width = canvas_width s, image_height = canvas_height s,
           image_frame = canvas_frame s, image_type = mime, image_quality = quality\<rparr>]\<rparr>"

text \<open>
  The \<^verbatim>\<open>seeked\<close> listener: the frame is drawn, then a JPEG of the canvas at quality 0.8
  is asked for; what either call throws is caught and rejects the promise.
\<close>

definition on_seeked :: "seeked_outcome \<Rightarrow> extractor \<Rightarrow> extractor" where
  "on_seeked outcome s =
     (case outcome of
        DrawImageThrows error \<Rightarrow> s\<lparr>promise := reject error (promise s)\<rparr>
      | ToBlobThrows error \<Rightarrow>
          (let s1 = drawImage s in s1\<lparr>promise := reject error (promise s1)\<rparr>)
      | ToBlobReturns \<Rightarrow> toBlob ''image/jpeg'' 0.8 (drawImage s))"

text \<open>The callback given to \<^verbatim>\<open>toBlob\<close>; \<open>None\<close> is \<^verbatim>\<open>null\<close>.\<close>

definition toBlob_callback :: "image option \<Rightarrow> extractor \<Rightarrow> extractor" where
  "toBlob_callback blob s =
     (case blob of
        Some b \<Rightarrow> (let thumbnailUrl = ObjectURL b in s\<lparr>promise := resolve thumbnailUrl (promise s)\<rparr>)
      | None \<Rightarrow> s\<lparr>promise := reject (Error ''Failed to create thumbnail blob'') (promise s)\<rparr>)"

definition on_error :: "extractor \<Rightarrow> extractor" where
  "on_error s = s\<lparr>promise := reject (Error ''Video failed to load'') (promise s)\<rparr>"

text \<open>One event reaches the code. A callback for a \<^verbatim>\<open>toBlob\<close> call that was never made
  does not exist.\<close>

fun handle :: "number \<Rightarrow> extractor \<Rightarrow> event \<Rightarrow> extractor" where
  "handle timeInSeconds s (LoadedMetadata w h d) = on_loadedmetadata timeInSeconds w h d s"
| "handle timeInSeconds s (Seeked outcome) = on_seeked outcome s"
| "handle timeInSeconds s (ToBlobCallback k ok) =
     (if k < length (toBlobCalls s)
      then toBlob_callback (if ok then Some (toBlobCalls s ! k) else None) s
      else s)"
| "handle timeInSeconds s ErrorEvent = on_error s"

text \<open>
  The browser, as far as the code depends on it: whether \<^verbatim>\<open>canvas.getContext('2d')\<close> gives
  a context, and the events that a \<^verbatim>\<open>video\<close> element loading a given file will deliver,
  in order, from \<^verbatim>\<open>video.load()\<close> on. After the last of them nothing happens any more.
  (The list is the browser's: that no \<^verbatim>\<open>seeked\<close> event follows an assignment that threw
  is a fact about browsers, which the list is free to have or not.)
\<close>

record browser =
  getContext_2d :: bool
  events :: "File \<Rightarrow> event list"

text \<open>
  The promise executor. Without a context it rejects and returns before a listener is
  added or the video gets a source. Otherwise the listeners are added, the video is
  given the file and loaded, and the events are handled as they come.
\<close>

definition executor :: "browser \<Rightarrow> File \<Rightarrow> number \<Rightarrow> extractor" where
  "executor b videoFile timeInSeconds =
     (let s = \<lparr>src = None, currentTime = Finite 0, canvas_width = 300, canvas_height = 150,
                canvas_frame = None, toBlobCalls = [], promise = Pending\<rparr>
      in if \<not> getContext_2d b
         then s\<lparr>promise := reject (Error ''Canvas context not available'') (promise s)\<rparr>
         else foldl (handle timeInSeconds) (s\<lparr>src := Some videoFile\<rparr>) (events b videoFile))"

definition generateThumbnailFromVideo :: "browser \<Rightarrow> File \<Rightarrow> number \<Rightarrow> url promise" where
  "generateThumbnailFromVideo b videoFile timeInSeconds =
     promise (executor b videoFile timeInSeconds)"

section \<open>\<^verbatim>\<open>batchGenerateThumbnails\<close>\<close>

record thumbnail_result =
  result_file :: File
  result_thumbnail :: url
  result_fileName :: string

text \<open>
  What a run of the batch does, in order: the entries pushed on \<^verbatim>\<open>results\<close>, the calls of
  \<^verbatim>\<open>generateThumbnailFromVideo\<close>, the calls of \<^verbatim>\<open>onProgress\<close>, the calls of
  \<^verbatim>\<open>console.error\<close>.
\<close>

record batch =
  results :: "thumbnail_result list"
  extractor_calls :: "File list"
  progress_calls :: "(nat \<times> nat) list"
  console_errors :: "(string \<times> exn) list"

text \<open>
  An \<^verbatim>\<open>async\<close> function either comes to its \<^verbatim>\<open>return\<close>, or stays at an \<^verbatim>\<open>await\<close> whose
  promise never settles.
\<close>

datatype batch_outcome = Returns batch | Awaits batch

fun trace :: "batch_outcome \<Rightarrow> batch" where
  "trace (Returns s) = s"
| "trace (Awaits s) = s"

text \<open>
  The \<^verbatim>\<open>for\<close> loop, from index \<open>i\<close> on. \<^verbatim>\<open>onProgress\<close> is optional, and like any callback
  it may throw (\<open>Some error\<close>); the \<^verbatim>\<open>try\<close> block covers it.
\<close>

function batch_loop ::
  "browser \<Rightarrow> File list \<Rightarrow> number \<Rightarrow> (nat \<Rightarrow> nat \<Rightarrow> exn option) option \<Rightarrow> nat \<Rightarrow> batch
   \<Rightarrow> batch_outcome" where
  "batch_loop b videoFiles timeInSeconds onProgress i s =
     (if i < length videoFiles then
        (let s1 = s\<lparr>extractor_calls := extractor_calls s @ [videoFiles ! i]\<rparr>;
             failed = (\<lambda>error s'. s'\<lparr>console_errors := console_errors s' @
               [(''Failed to generate thumbnail for '' @ name (videoFiles ! i) @ '':'', error)]\<rparr>)
         in case generateThumbnailFromVideo b (videoFiles ! i) timeInSeconds of
              Pending \<Rightarrow> Awaits s1
            | Rejected error \<Rightarrow>
                batch_loop b videoFiles timeInSeconds onProgress (i + 1) (failed error s1)
            | Fulfilled thumbnail \<Rightarrow>
                (let fileName = createThumbnailFileName (name (videoFiles ! i));
                     s2 = s1\<lparr>results := results s1 @
                       [\<lparr>result_file = videoFiles ! i, result_thumbnail = thumbnail,
                         result_fileName = fileName\<rparr>]\<rparr>
                 in case onProgress of
                      None \<Rightarrow> batch_loop b videoFiles timeInSeconds onProgress (i + 1) s2
                    | Some callback \<Rightarrow>
                        (let s3 = s2\<lparr>progress_calls := progress_calls s2 @
                               [(i + 1, length videoFiles)]\<rparr>
                         in case callback (i + 1) (length videoFiles) of
                              None \<Rightarrow>
                                batch_loop b videoFiles timeInSeconds onProgress (i + 1) s3
                            | Some error \<Rightarrow>
                                batch_loop b videoFiles timeInSeconds onProgress (i + 1)
                                  (failed error s3))))
      else Returns s)"
  by pat_completeness auto
termination
  by (relation "measure (\<lambda>(b, videoFiles, timeInSeconds, onProgress, i, s). length videoFiles - i)")
    auto

declare batch_loop.simps [simp del]

definition batchGenerateThumbnails ::
  "browser \<Rightarrow> File list \<Rightarrow> number \<Rightarrow> (nat \<Rightarrow> nat \<Rightarrow> exn option) option \<Rightarrow> batch_outcome" where
  "batchGenerateThumbnails b videoFiles timeInSeconds onProgress =
     batch_loop b videoFiles timeInSeconds onProgress 0
       \<lparr>results = [], extractor_calls = [], progress_calls = [], console_errors = []\<rparr>"

section \<open>\<^verbatim>\<open>handleFiles\<close> of the uploader\<close>

text \<open>
  The part of \<^verbatim>\<open>ThumbnailUploader.handleFiles\<close> that decides what is extracted: the
  files are filtered by \<^verbatim>\<open>isValidVideoFile\<close>; if none is left the user is alerted and
  nothing else happens; otherwise the batch runs on the files left, at 1 second, with a
  progress callback that sets a React state and does not throw. (The React state itself
  is left out.)
\<close>

datatype handleFiles_outcome = Alert string | Batch batch_outcome

definition handleFiles :: "browser \<Rightarrow> File list \<Rightarrow> handleFiles_outcome" where
  "handleFiles b files =
     (let videoFiles = filter isValidVideoFile files
      in if length videoFiles = 0
         then Alert ''Please select valid video files (MP4, WebM, OGG, MOV, AVI)''
         else Batch (batchGenerateThumbnails b videoFiles (Finite 1)
                (Some (\<lambda>completed total. None))))"

section \<open>Notions used to state the properties\<close>

text \<open>
  A name has a final extension when it ends with a dot followed by a non-empty run of
  characters other than dot and slash.
\<close>

definition has_final_extension :: "string \<Rightarrow> bool" where
  "has_final_extension s =
     (\<exists>base ext. s = base @ ''.'' @ ext \<and> ext \<noteq> [] \<and> list_all not_slash_or_dot ext)"

text \<open>
  The entries that the inputs whose extraction succeeds give, in the order of the
  inputs; the line logged for a failed input; the progress reports \<open>(j + 1, total)\<close> for
  the positions \<open>j\<close> from \<open>i\<close> up to \<open>m\<close> whose extraction succeeds.
\<close>

definition successes :: "browser \<Rightarrow> number \<Rightarrow> File list \<Rightarrow> thumbnail_result list" where
  "successes b t fs =
     concat (map (\<lambda>f. case generateThumbnailFromVideo b f t of
                Fulfilled u \<Rightarrow> [\<lparr>result_file = f, result_thumbnail = u,
                                 result_fileName = createThumbnailFileName (name f)\<rparr>]
              | _ \<Rightarrow> []) fs)"

definition failure_log :: "File \<Rightarrow> exn \<Rightarrow> string \<times> exn" where
  "failure_log f e = (''Failed to generate thumbnail for '' @ name f @ '':'', e)"

definition reported :: "browser \<Rightarrow> number \<Rightarrow> File list \<Rightarrow> nat \<Rightarrow> nat \<Rightarrow> (nat \<times> nat) list" where
  "reported b t fs i m =
     map (\<lambda>j. (j + 1, length fs))
       (filter (\<lambda>j. fulfilled (generateThumbnailFromVideo b (fs ! j) t)) [i..<m])"

section \<open>An example batch\<close>

text \<open>
  A browser with a canvas context, in which a file with the content 0 is corrupt (the
  video element answers with an \<^verbatim>\<open>error\<close> event), a file with the content 2 stalls
  after its metadata (the seek never completes), a file with the content 4 makes
  \<^verbatim>\<open>drawImage\<close> throw, and every other file is a 640 by 360 video of 10 seconds that
  loads, seeks and encodes without trouble.
\<close>

definition example_browser :: browser where
  "example_browser =
     \<lparr>getContext_2d = True,
      events = (\<lambda>f.
        if content f = 0 then [ErrorEvent]
        else if content f = 2 then [LoadedMetadata 640 360 (Finite 10)]
        else if content f = 4 then
          [LoadedMetadata 640 360 (Finite 10),
           Seeked (DrawImageThrows (DOMException ''InvalidStateError'' ''broken video''))]
        else [LoadedMetadata 640 360 (Finite 10), Seeked ToBlobReturns,
              ToBlobCallback 0 True])\<rparr>"

definition input1 :: File where
  "input1 = \<lparr>name = ''one.mp4'', type = ''video/mp4'', content = 1\<rparr>"

definition input2 :: File where
  "input2 = \<lparr>name = ''two.mp4'', type = ''video/mp4'', content = 0\<rparr>"

definition input3 :: File where
  "input3 = \<lparr>name = ''three.mp4'', type = ''video/mp4'', content = 3\<rparr>"

definition stalled :: File where
  "stalled = \<lparr>name = ''stalled.webm'', type = ''video/webm'', content = 2\<rparr>"

definition broken :: File where
  "broken = \<lparr>name = ''broken.mp4'', type = ''video/mp4'', content = 4\<rparr>"

definition photo :: File where
  "photo = \<lparr>name = ''photo.jpg'', type = ''image/jpeg'', content = 0\<rparr>"

text \<open>
  The causes of a rejection that the events of a run hold: the \<^verbatim>\<open>error\<close> event, an encoder
  that answers \<^verbatim>\<open>null\<close>, and what \<^verbatim>\<open>drawImage\<close> or \<^verbatim>\<open>toBlob\<close> throws.
\<close>

definition cause :: "event list \<Rightarrow> exn \<Rightarrow> bool" where
  "cause evs e =
     (e = Error ''Video failed to load'' \<and> ErrorEvent \<in> set evs
      \<or> e = Error ''Failed to create thumbnail blob'' \<and> (\<exists>k. ToBlobCallback k False \<in> set evs)
      \<or> Seeked (DrawImageThrows e) \<in> set evs
      \<or> Seeked (ToBlobThrows e) \<in> set evs)"

text \<open>
  The numbers that are an offset or a duration in seconds: the non-negative reals and
  \<^verbatim>\<open>Infinity\<close> (the duration of a stream without end; as an offset, the end of the clip).
\<close>

fun non_negative :: "number \<Rightarrow> bool" where
  "non_negative (Finite x) = (0 \<le> x)"
| "non_negative Infinity = True"
| "non_negative v = False"

text \<open>
  The position of a video of duration \<open>d\<close>, so far at 0, after the \<^verbatim>\<open>loadedmetadata\<close>
  listener has run for the offset \<open>t\<close>.
\<close>

definition sought :: "number \<Rightarrow> number \<Rightarrow> number" where
  "sought t d = (case Math_min t d of Finite x \<Rightarrow> seek_position d x | _ \<Rightarrow> Finite 0)"

fun is_LoadedMetadata :: "event \<Rightarrow> bool" where
  "is_LoadedMetadata (LoadedMetadata w h d) = True"
| "is_LoadedMetadata e = False"

text \<open>The JPEG that \<^verbatim>\<open>toBlob\<close> is asked for when the canvas has the size \<open>w\<close> by \<open>h\<close> and
  the frame at \<open>pos\<close> is on it.\<close>

definition jpeg :: "nat \<Rightarrow> nat \<Rightarrow> number \<Rightarrow> image" where
  "jpeg w h pos = \<lparr>image_width = w, image_height = h, image_frame = Some pos,
     image_type = ''image/jpeg'', image_quality = 0.8\<rparr>"

text \<open>
  What holds of the extractor once the metadata \<open>w\<close>, \<open>h\<close> have been read and the video is
  at the position \<open>pos\<close>, as long as no other \<^verbatim>\<open>loadedmetadata\<close> event comes.
\<close>

definition loaded :: "nat \<Rightarrow> nat \<Rightarrow> number \<Rightarrow> extractor \<Rightarrow> bool" where
  "loaded w h pos s =
     (canvas_width s = w \<and> canvas_height s = h \<and> currentTime s = pos
      \<and> (canvas_frame s = None \<or> canvas_frame s = Some pos)
      \<and> (\<forall>img\<in>set (toBlobCalls s). img = jpeg w h pos)
      \<and> (\<forall>u. promise s = Fulfilled u \<longrightarrow> u = ObjectURL (jpeg w h pos)))"

text \<open>What \<open>handleFiles\<close> has extracted: nothing after an alert.\<close>

fun extracted :: "handleFiles_outcome \<Rightarrow> File list" where
  "extracted (Alert m) = []"
| "extracted (Batch out) = extractor_calls (trace out)"

section \<open>Lemmas on the file name\<close>

lemma replace_extension_no_match:
  "\<forall>base ext. s \<noteq> base @ CHR ''.'' # ext \<or> ext = [] \<or> \<not> list_all not_slash_or_dot ext
   \<Longrightarrow> replace_extension s = s"
proof (induction s)
  case Nil
  then show ?case by simp
next
  case (Cons c cs)
  have nomatch: "\<not> regex_matches_at (c # cs)"
  proof
    assume "regex_matches_at (c # cs)"
    then have "c # cs = [] @ CHR ''.'' # cs \<and> cs \<noteq> [] \<and> list_all not_slash_or_dot cs"
      by simp
    with Cons.prems show False by blast
  qed
  have "\<forall>base ext. cs \<noteq> base @ CHR ''.'' # ext \<or> ext = [] \<or> \<not> list_all not_slash_or_dot ext"
  proof (intro allI)
    fix base ext
    from Cons.prems have "c # cs \<noteq> (c # base) @ CHR ''.'' # ext \<or> ext = []
        \<or> \<not> list_all not_slash_or_dot ext"
      by blast
    then show "cs \<noteq> base @ CHR ''.'' # ext \<or> ext = [] \<or> \<not> list_all not_slash_or_dot ext"
      by simp
  qed
  with Cons.IH have "replace_extension cs = cs" by simp
  with nomatch show ?case by simp
qed

lemma replace_extension_strip:
  "ext \<noteq> [] \<Longrightarrow> list_all not_slash_or_dot ext
   \<Longrightarrow> replace_extension (base @ CHR ''.'' # ext) = base"
proof (induction base)
  case Nil
  then show ?case by simp
next
  case (Cons b base)
  have "\<not> list_all not_slash_or_dot (base @ CHR ''.'' # ext)"
    by (simp add: not_slash_or_dot_def)
  then have "\<not> regex_matches_at (b # base @ CHR ''.'' # ext)"
    by simp
  with Cons show ?case by simp
qed

lemma has_final_extension_dot: "has_final_extension s \<Longrightarrow> CHR ''.'' \<in> set s"
  by (auto simp: has_final_extension_def)

section \<open>Lemmas on the extractor\<close>

lemmas listener_defs = on_loadedmetadata_def set_currentTime_def on_seeked_def drawImage_def
  toBlob_def toBlob_callback_def on_error_def resolve_def reject_def Let_def

lemma handle_settled: "promise s \<noteq> Pending \<Longrightarrow> promise (handle t s e) = promise s"
  by (cases e; cases "promise s")
    (auto simp: listener_defs split: seeked_outcome.splits number.splits)

lemma foldl_settled: "promise s \<noteq> Pending \<Longrightarrow> promise (foldl (handle t) s evs) = promise s"
  by (induction evs arbitrary: s) (simp_all add: handle_settled)

lemma handle_rejects:
  "promise (handle t s a) = Rejected e \<Longrightarrow> promise s = Rejected e \<or> cause [a] e"
  by (cases a; cases "promise s")
    (auto simp: listener_defs cause_def split: seeked_outcome.splits number.splits if_splits)

lemma cause_Cons: "cause [a] e \<or> cause evs e \<Longrightarrow> cause (a # evs) e"
  by (auto simp: cause_def)

lemma foldl_rejects:
  "promise (foldl (handle t) s evs) = Rejected e \<Longrightarrow> promise s = Rejected e \<or> cause evs e"
proof (induction evs arbitrary: s)
  case Nil
  then show ?case by simp
next
  case (Cons a evs)
  then have "promise (handle t s a) = Rejected e \<or> cause evs e" by simp
  then show ?case using handle_rejects [of t s a e] cause_Cons [of a e evs] by blast
qed

lemma loaded_handle:
  "loaded w h pos s \<Longrightarrow> \<not> is_LoadedMetadata e \<Longrightarrow> loaded w h pos (handle t s e)"
  by (cases e; cases "promise s")
    (auto simp: loaded_def listener_defs jpeg_def split: seeked_outcome.splits)

lemma loaded_foldl:
  "loaded w h pos s \<Longrightarrow> list_all (\<lambda>e. \<not> is_LoadedMetadata e) evs \<Longrightarrow> loaded w h pos (foldl (handle t) s evs)"
  by (induction evs arbitrary: s) (simp_all add: loaded_handle)

lemma on_loadedmetadata_sought:
  "currentTime s = Finite 0 \<Longrightarrow> currentTime (on_loadedmetadata t w h d s) = sought t d"
  by (simp add: on_loadedmetadata_def set_currentTime_def sought_def split: number.splits)

lemma on_loadedmetadata_rest:
  "canvas_width (on_loadedmetadata t w h d s) = w"
  "canvas_height (on_loadedmetadata t w h d s) = h"
  "canvas_frame (on_loadedmetadata t w h d s) = canvas_frame s"
  "toBlobCalls (on_loadedmetadata t w h d s) = toBlobCalls s"
  "promise (on_loadedmetadata t w h d s) = promise s"
  by (cases "Math_min t d"; simp add: on_loadedmetadata_def set_currentTime_def)+

lemma on_loadedmetadata_not_finite:
  "Math_min t d = NaN \<or> Math_min t d = Infinity \<or> Math_min t d = NegInfinity \<Longrightarrow>
   on_loadedmetadata t w h d s = s\<lparr>canvas_width := w, canvas_height := h\<rparr>"
  by (auto simp: on_loadedmetadata_def set_currentTime_def)

lemma sought_in_range:
  assumes "non_negative t" and "non_negative d" and "t \<noteq> Infinity \<or> d \<noteq> Infinity"
  shows "sought t d = Math_min t d"
  using assms
  by (cases t; cases d) (auto simp: sought_def Math_min_def seek_position_def)

lemma Math_min_less: "less_number d t \<Longrightarrow> Math_min t d = d"
  by (cases d; cases t) (simp_all add: Math_min_def)

lemma executor_metadata_first:
  assumes "getContext_2d b" and "events b f = LoadedMetadata w h d # rest"
  shows "\<exists>s. executor b f t = foldl (handle t) s rest
      \<and> promise s = Pending \<and> toBlobCalls s = []"
proof -
  let ?s0 = "\<lparr>src = Some f, currentTime = Finite 0, canvas_width = 300, canvas_height = 150,
                canvas_frame = None, toBlobCalls = [], promise = Pending\<rparr>"
  have "executor b f t = foldl (handle t) (on_loadedmetadata t w h d ?s0) rest"
    using assms by (simp add: executor_def)
  then show ?thesis
    by (intro exI [of _ "on_loadedmetadata t w h d ?s0"]) (simp add: on_loadedmetadata_rest)
qed

lemma seeked_rejections:
  assumes "promise s = Pending" and "toBlobCalls s = []"
  shows "promise (foldl (handle t) s (Seeked ToBlobReturns # ToBlobCallback 0 False # rest))
      = Rejected (Error ''Failed to create thumbnail blob'')"
    and "promise (foldl (handle t) s (Seeked (DrawImageThrows e) # rest)) = Rejected e"
    and "promise (foldl (handle t) s (Seeked (ToBlobThrows e) # rest)) = Rejected e"
  using assms
  by (simp_all add: foldl_settled on_seeked_def drawImage_def toBlob_def toBlob_callback_def
      reject_def)

lemma executor_loaded:
  assumes "getContext_2d b" and "events b f = LoadedMetadata w h d # rest"
    and "list_all (\<lambda>e. \<not> is_LoadedMetadata e) rest"
  shows "loaded w h (sought t d) (executor b f t)"
proof -
  let ?s0 = "\<lparr>src = Some f, currentTime = Finite 0, canvas_width = 300, canvas_height = 150,
                canvas_frame = None, toBlobCalls = [], promise = Pending\<rparr>"
  have "currentTime (on_loadedmetadata t w h d ?s0) = sought t d"
    by (rule on_loadedmetadata_sought) simp
  then have "loaded w h (sought t d) (on_loadedmetadata t w h d ?s0)"
    by (simp add: loaded_def on_loadedmetadata_rest)
  from loaded_foldl [OF this assms(3), of t] show ?thesis
    using assms(1,2) by (simp add: executor_def)
qed

lemma executor_orderly:
  assumes "getContext_2d b"
    and "events b f = LoadedMetadata w h d # Seeked ToBlobReturns # ToBlobCallback 0 True # rest"
  shows "generateThumbnailFromVideo b f t = Fulfilled (ObjectURL (jpeg w h (sought t d)))"
proof -
  let ?s0 = "\<lparr>src = Some f, currentTime = Finite 0, canvas_width = 300, canvas_height = 150,
                canvas_frame = None, toBlobCalls = [], promise = Pending\<rparr>"
  let ?s1 = "on_loadedmetadata t w h d ?s0"
  have t: "currentTime ?s1 = sought t d"
    by (rule on_loadedmetadata_sought) simp
  have r: "canvas_width ?s1 = w" "canvas_height ?s1 = h" "toBlobCalls ?s1 = []"
    "promise ?s1 = Pending"
    by (simp_all add: on_loadedmetadata_rest)
  let ?s3 = "handle t (handle t ?s1 (Seeked ToBlobReturns)) (ToBlobCallback 0 True)"
  have p: "promise ?s3 = Fulfilled (ObjectURL (jpeg w h (sought t d)))"
    using t r by (simp add: on_seeked_def drawImage_def toBlob_def toBlob_callback_def
        resolve_def jpeg_def)
  have "executor b f t = foldl (handle t) ?s3 rest"
    using assms by (simp add: executor_def del: handle.simps(2,3))
  then show ?thesis
    using p by (simp add: generateThumbnailFromVideo_def foldl_settled del: handle.simps)
qed

lemmas example_simps = example_browser_def input1_def input2_def input3_def photo_def
  generateThumbnailFromVideo_def executor_def on_loadedmetadata_def set_currentTime_def
  seek_position_def on_seeked_def drawImage_def toBlob_def toBlob_callback_def on_error_def
  resolve_def reject_def Math_min_def

lemma example_input1:
  "generateThumbnailFromVideo example_browser input1 (Finite 1) =
     Fulfilled (ObjectURL \<lparr>image_width = 640, image_height = 360, image_frame = Some (Finite 1),
       image_type = ''image/jpeg'', image_quality = 0.8\<rparr>)"
  by (simp add: example_simps)

lemma example_input2:
  "generateThumbnailFromVideo example_browser input2 (Finite 1) = Rejected (Error ''Video failed to load'')"
  by (simp add: example_simps)

lemma example_input3:
  "generateThumbnailFromVideo example_browser input3 (Finite 1) =
     Fulfilled (ObjectURL \<lparr>image_width = 640, image_height = 360, image_frame = Some (Finite 1),
       image_type = ''image/jpeg'', image_quality = 0.8\<rparr>)"
  by (simp add: example_simps)

lemma example_photo:
  "generateThumbnailFromVideo example_browser photo t = Rejected (Error ''Video failed to load'')"
  by (simp add: example_simps)

section \<open>Lemmas on the batch loop\<close>

lemma loop_end:
  "\<not> i < length fs \<Longrightarrow> batch_loop b fs t cb i s = Returns s"
  by (subst batch_loop.simps) simp

lemma loop_pending:
  "i < length fs \<Longrightarrow> generateThumbnailFromVideo b (fs ! i) t = Pending \<Longrightarrow>
   batch_loop b fs t cb i s = Awaits (s\<lparr>extractor_calls := extractor_calls s @ [fs ! i]\<rparr>)"
  by (subst batch_loop.simps) simp

lemma loop_rejected:
  "i < length fs \<Longrightarrow> generateThumbnailFromVideo b (fs ! i) t = Rejected e \<Longrightarrow>
   batch_loop b fs t cb i s =
     batch_loop b fs t cb (Suc i)
       (s\<lparr>extractor_calls := extractor_calls s @ [fs ! i],
          console_errors := console_errors s @
            [(''Failed to generate thumbnail for '' @ name (fs ! i) @ '':'', e)]\<rparr>)"
  by (subst batch_loop.simps) simp

lemma loop_fulfilled:
  "i < length fs \<Longrightarrow> generateThumbnailFromVideo b (fs ! i) t = Fulfilled u \<Longrightarrow>
   batch_loop b fs t cb i s =
     batch_loop b fs t cb (Suc i)
       (s\<lparr>extractor_calls := extractor_calls s @ [fs ! i],
          results := results s @
            [\<lparr>result_file = fs ! i, result_thumbnail = u,
              result_fileName = createThumbnailFileName (name (fs ! i))\<rparr>],
          progress_calls := progress_calls s @
            (case cb of None \<Rightarrow> [] | Some c \<Rightarrow> [(Suc i, length fs)]),
          console_errors := console_errors s @
            (case cb of None \<Rightarrow> []
             | Some c \<Rightarrow> (case c (Suc i) (length fs) of None \<Rightarrow> []
                 | Some e \<Rightarrow> [(''Failed to generate thumbnail for '' @ name (fs ! i) @ '':'', e)]))\<rparr>)"
  by (subst batch_loop.simps) (simp add: Let_def split: option.splits)

lemma successes_append: "successes b t (xs @ ys) = successes b t xs @ successes b t ys"
  by (simp add: successes_def)

lemma loop_prefix:
  assumes "i \<le> m" and "m \<le> length fs"
    and "\<forall>j. i \<le> j \<and> j < m \<longrightarrow> generateThumbnailFromVideo b (fs ! j) t \<noteq> Pending"
  shows "\<exists>s'. batch_loop b fs t cb i s = batch_loop b fs t cb m s'
      \<and> extractor_calls s' = extractor_calls s @ take (m - i) (drop i fs)
      \<and> results s' = results s @ successes b t (take (m - i) (drop i fs))
      \<and> progress_calls s' = progress_calls s @ (if cb = None then [] else reported b t fs i m)
      \<and> set (console_errors s) \<subseteq> set (console_errors s')
      \<and> (\<forall>j e. i \<le> j \<and> j < m \<and> generateThumbnailFromVideo b (fs ! j) t = Rejected e
            \<longrightarrow> failure_log (fs ! j) e \<in> set (console_errors s'))"
  using assms
proof (induction m rule: dec_induct)
  case base
  show ?case by (rule exI [of _ s]) (auto simp: successes_def reported_def)
next
  case (step m)
  then have m: "m < length fs" by simp
  from step obtain s1 where run: "batch_loop b fs t cb i s = batch_loop b fs t cb m s1"
    and c1: "extractor_calls s1 = extractor_calls s @ take (m - i) (drop i fs)"
    and r1: "results s1 = results s @ successes b t (take (m - i) (drop i fs))"
    and p1: "progress_calls s1 = progress_calls s @ (if cb = None then [] else reported b t fs i m)"
    and e1: "set (console_errors s) \<subseteq> set (console_errors s1)"
    and l1: "\<forall>j e. i \<le> j \<and> j < m \<and> generateThumbnailFromVideo b (fs ! j) t = Rejected e
            \<longrightarrow> failure_log (fs ! j) e \<in> set (console_errors s1)"
    by force
  have tk: "take (Suc m - i) (drop i fs) = take (m - i) (drop i fs) @ [fs ! m]"
    using step.hyps m by (simp add: Suc_diff_le take_Suc_conv_app_nth)
  have up: "[i..<Suc m] = [i..<m] @ [m]"
    using step.hyps by simp
  let ?G = "generateThumbnailFromVideo b (fs ! m) t"
  from step.prems step.hyps have "?G \<noteq> Pending" by simp
  then consider (rej) e where "?G = Rejected e" | (ful) u where "?G = Fulfilled u"
    by (cases ?G) simp_all
  then show ?case
  proof cases
    case rej
    let ?s2 = "s1\<lparr>extractor_calls := extractor_calls s1 @ [fs ! m],
          console_errors := console_errors s1 @
            [(''Failed to generate thumbnail for '' @ name (fs ! m) @ '':'', e)]\<rparr>"
    have "batch_loop b fs t cb i s = batch_loop b fs t cb (Suc m) ?s2"
      using run loop_rejected [OF m rej] by simp
    moreover have "extractor_calls ?s2 = extractor_calls s @ take (Suc m - i) (drop i fs)"
      using c1 tk by simp
    moreover have "results ?s2 = results s @ successes b t (take (Suc m - i) (drop i fs))"
      using r1 tk rej by (simp add: successes_append) (simp add: successes_def)
    moreover have "progress_calls ?s2 = progress_calls s @ (if cb = None then [] else reported b t fs i (Suc m))"
      using p1 up rej by (simp add: reported_def)
    moreover have "set (console_errors s) \<subseteq> set (console_errors ?s2)"
      using e1 by auto
    moreover have "\<forall>j e. i \<le> j \<and> j < Suc m \<and> generateThumbnailFromVideo b (fs ! j) t = Rejected e
            \<longrightarrow> failure_log (fs ! j) e \<in> set (console_errors ?s2)"
      using l1 rej by (auto simp: less_Suc_eq failure_log_def)
    ultimately show ?thesis by blast
  next
    case ful
    let ?s2 = "s1\<lparr>extractor_calls := extractor_calls s1 @ [fs ! m],
          results := results s1 @
            [\<lparr>result_file = fs ! m, result_thumbnail = u,
              result_fileName = createThumbnailFileName (name (fs ! m))\<rparr>],
          progress_calls := progress_calls s1 @
            (case cb of None \<Rightarrow> [] | Some c \<Rightarrow> [(Suc m, length fs)]),
          console_errors := console_errors s1 @
            (case cb of None \<Rightarrow> []
             | Some c \<Rightarrow> (case c (Suc m) (length fs) of None \<Rightarrow> []
                 | Some e \<Rightarrow> [(''Failed to generate thumbnail for '' @ name (fs ! m) @ '':'', e)]))\<rparr>"
    have "batch_loop b fs t cb i s = batch_loop b fs t cb (Suc m) ?s2"
      using run loop_fulfilled [OF m ful] by simp
    moreover have "extractor_calls ?s2 = extractor_calls s @ take (Suc m - i) (drop i fs)"
      using c1 tk by simp
    moreover have "results ?s2 = results s @ successes b t (take (Suc m - i) (drop i fs))"
      using r1 tk ful by (simp add: successes_append) (simp add: successes_def)
    moreover have "progress_calls ?s2 = progress_calls s @ (if cb = None then [] else reported b t fs i (Suc m))"
      using p1 up ful by (auto simp: reported_def)
    moreover have "set (console_errors s) \<subseteq> set (console_errors ?s2)"
      using e1 by auto
    moreover have "\<forall>j e. i \<le> j \<and> j < Suc m \<and> generateThumbnailFromVideo b (fs ! j) t = Rejected e
            \<longrightarrow> failure_log (fs ! j) e \<in> set (console_errors ?s2)"
      using l1 ful by (auto simp: less_Suc_eq)
    ultimately show ?thesis by blast
  qed
qed

lemma batch_returns:
  assumes "\<forall>f\<in>set fs. generateThumbnailFromVideo b f t \<noteq> Pending"
  shows "\<exists>s. batchGenerateThumbnails b fs t cb = Returns s
      \<and> extractor_calls s = fs
      \<and> results s = successes b t fs
      \<and> progress_calls s = (if cb = None then [] else reported b t fs 0 (length fs))
      \<and> (\<forall>j e. j < length fs \<and> generateThumbnailFromVideo b (fs ! j) t = Rejected e
            \<longrightarrow> failure_log (fs ! j) e \<in> set (console_errors s))"
proof -
  have "\<forall>j. 0 \<le> j \<and> j < length fs \<longrightarrow> generateThumbnailFromVideo b (fs ! j) t \<noteq> Pending"
    using assms by simp
  from loop_prefix [OF le0 le_refl this, of cb
      "\<lparr>results = [], extractor_calls = [], progress_calls = [], console_errors = []\<rparr>"]
  show ?thesis
    by (auto simp: batchGenerateThumbnails_def loop_end)
qed

lemma batch_awaits:
  assumes n: "n < length fs" and p: "generateThumbnailFromVideo b (fs ! n) t = Pending"
    and first: "\<forall>j<n. generateThumbnailFromVideo b (fs ! j) t \<noteq> Pending"
  shows "\<exists>s. batchGenerateThumbnails b fs t cb = Awaits s
      \<and> extractor_calls s = take (Suc n) fs
      \<and> results s = successes b t (take (Suc n) fs)
      \<and> progress_calls s = (if cb = None then [] else reported b t fs 0 n)"
proof -
  have le: "n \<le> length fs" using n by simp
  have "\<forall>j. 0 \<le> j \<and> j < n \<longrightarrow> generateThumbnailFromVideo b (fs ! j) t \<noteq> Pending"
    using first by simp
  from loop_prefix [OF le0 le this, of cb
      "\<lparr>results = [], extractor_calls = [], progress_calls = [], console_errors = []\<rparr>"]
  obtain s1 where run: "batchGenerateThumbnails b fs t cb = batch_loop b fs t cb n s1"
    and c1: "extractor_calls s1 = take n fs"
    and r1: "results s1 = successes b t (take n fs)"
    and p1: "progress_calls s1 = (if cb = None then [] else reported b t fs 0 n)"
    by (auto simp: batchGenerateThumbnails_def)
  have "successes b t (take (Suc n) fs) = successes b t (take n fs)"
    using n p by (simp add: take_Suc_conv_app_nth successes_append) (simp add: successes_def)
  with run c1 r1 p1 n show ?thesis
    by (simp add: loop_pending [OF n p] take_Suc_conv_app_nth)
qed

lemma first_pending:
  assumes "n < length fs" and "generateThumbnailFromVideo b (fs ! n) t = Pending"
  shows "\<exists>m\<le>n. generateThumbnailFromVideo b (fs ! m) t = Pending
      \<and> (\<forall>j<m. generateThumbnailFromVideo b (fs ! j) t \<noteq> Pending)"
proof -
  let ?P = "\<lambda>m. generateThumbnailFromVideo b (fs ! m) t = Pending"
  have "?P (LEAST m. ?P m)" using assms(2) by (rule LeastI)
  moreover have "(LEAST m. ?P m) \<le> n" using assms(2) by (rule Least_le)
  moreover have "\<forall>j<(LEAST m. ?P m). \<not> ?P j" using not_less_Least by blast
  ultimately show ?thesis by blast
qed

lemma map_result_file_successes:
  "map result_file (successes b t fs) = filter (\<lambda>f. fulfilled (generateThumbnailFromVideo b f t)) fs"
  by (induction fs) (auto simp: successes_def split: promise.splits)

lemma batch_prefix:
  "\<exists>k\<le>length fs. extractor_calls (trace (batchGenerateThumbnails b fs t cb)) = take k fs
      \<and> results (trace (batchGenerateThumbnails b fs t cb)) = successes b t (take k fs)"
proof (cases "\<forall>f\<in>set fs. generateThumbnailFromVideo b f t \<noteq> Pending")
  case True
  from batch_returns [OF True] obtain s where "batchGenerateThumbnails b fs t cb = Returns s"
    "extractor_calls s = fs" "results s = successes b t fs"
    by blast
  then have "extractor_calls (trace (batchGenerateThumbnails b fs t cb)) = take (length fs) fs
      \<and> results (trace (batchGenerateThumbnails b fs t cb)) = successes b t (take (length fs) fs)"
    by simp
  then show ?thesis by blast
next
  case False
  then obtain f where "f \<in> set fs" "generateThumbnailFromVideo b f t = Pending"
    by blast
  then obtain n where n: "n < length fs" and "generateThumbnailFromVideo b (fs ! n) t = Pending"
    by (metis in_set_conv_nth)
  from first_pending [OF this] obtain m where m: "m \<le> n"
    and p: "generateThumbnailFromVideo b (fs ! m) t = Pending"
    and f: "\<forall>j<m. generateThumbnailFromVideo b (fs ! j) t \<noteq> Pending"
    by blast
  from m n have "m < length fs" by simp
  from batch_awaits [OF this p f] obtain s where "batchGenerateThumbnails b fs t cb = Awaits s"
    "extractor_calls s = take (Suc m) fs" "results s = successes b t (take (Suc m) fs)"
    by blast
  then have "extractor_calls (trace (batchGenerateThumbnails b fs t cb)) = take (Suc m) fs
      \<and> results (trace (batchGenerateThumbnails b fs t cb)) = successes b t (take (Suc m) fs)"
    by simp
  with \<open>m < length fs\<close> show ?thesis
    by (metis Suc_leI)
qed

section \<open>The file name (C6, C10)\<close>

text \<open>
  C6. For every file name, \<open>createThumbnailFileName\<close> gives the name with only its
  final extension taken off, followed by \<^verbatim>\<open>-thumb.jpg\<close>: a name \<open>base.ext\<close>, where \<open>ext\<close> is
  a non-empty run of characters other than dot and slash, gives \<open>base-thumb.jpg\<close>,
  whatever dots \<open>base\<close> has. In particular \<^verbatim>\<open>clip.mp4\<close> gives \<^verbatim>\<open>clip-thumb.jpg\<close> and
  \<^verbatim>\<open>archive.tar.mp4\<close> gives \<^verbatim>\<open>archive.tar-thumb.jpg\<close>.
\<close>

theorem createThumbnailFileName_strips_final_extension:
  "(\<forall>base ext. ext \<noteq> [] \<and> list_all not_slash_or_dot ext \<longrightarrow>
      createThumbnailFileName (base @ ''.'' @ ext) = base @ ''-thumb.jpg'')
   \<and> createThumbnailFileName ''clip.mp4'' = ''clip-thumb.jpg''
   \<and> createThumbnailFileName ''archive.tar.mp4'' = ''archive.tar-thumb.jpg''"
proof (intro conjI allI impI)
  fix base ext :: string
  assume "ext \<noteq> [] \<and> list_all not_slash_or_dot ext"
  then show "createThumbnailFileName (base @ ''.'' @ ext) = base @ ''-thumb.jpg''"
    by (simp add: createThumbnailFileName_def replace_extension_strip)
next
  show "createThumbnailFileName ''clip.mp4'' = ''clip-thumb.jpg''"
    by (simp add: createThumbnailFileName_def not_slash_or_dot_def)
next
  show "createThumbnailFileName ''archive.tar.mp4'' = ''archive.tar-thumb.jpg''"
    by (simp add: createThumbnailFileName_def not_slash_or_dot_def)
qed

theorem createThumbnailFileName_strips_final_extension_witness:
  "''webm'' \<noteq> [] \<and> list_all not_slash_or_dot ''webm''
   \<and> createThumbnailFileName (''my.reel/take.2'' @ ''.'' @ ''webm'') = ''my.reel/take.2'' @ ''-thumb.jpg''"
proof -
  have h: "''webm'' \<noteq> [] \<and> list_all not_slash_or_dot ''webm''"
    by (simp add: not_slash_or_dot_def)
  have "\<forall>base ext. ext \<noteq> [] \<and> list_all not_slash_or_dot ext \<longrightarrow>
      createThumbnailFileName (base @ ''.'' @ ext) = base @ ''-thumb.jpg''"
    using createThumbnailFileName_strips_final_extension by (rule conjunct1)
  with h have "createThumbnailFileName (''my.reel/take.2'' @ ''.'' @ ''webm'')
      = ''my.reel/take.2'' @ ''-thumb.jpg''"
    by blast
  with h show ?thesis by blast
qed

text \<open>
  C10. A name without a final extension is kept whole and gets \<^verbatim>\<open>-thumb.jpg\<close> appended
  (\<^verbatim>\<open>clip\<close> gives \<^verbatim>\<open>clip-thumb.jpg\<close>); a name that is only an extension (a dot followed
  by a non-empty run of characters other than dot and slash), such as \<^verbatim>\<open>.mp4\<close>, is taken
  off whole and gives \<^verbatim>\<open>-thumb.jpg\<close>.
\<close>

theorem createThumbnailFileName_without_extension:
  "(\<not> has_final_extension videoFileName \<longrightarrow>
      createThumbnailFileName videoFileName = videoFileName @ ''-thumb.jpg'')
   \<and> createThumbnailFileName ''clip'' = ''clip-thumb.jpg''
   \<and> (\<forall>ext. ext \<noteq> [] \<and> list_all not_slash_or_dot ext \<longrightarrow>
        createThumbnailFileName (''.'' @ ext) = ''-thumb.jpg'')
   \<and> createThumbnailFileName ''.mp4'' = ''-thumb.jpg''"
proof (intro conjI impI allI)
  assume "\<not> has_final_extension videoFileName"
  then have "\<forall>base ext. videoFileName \<noteq> base @ CHR ''.'' # ext \<or> ext = []
      \<or> \<not> list_all not_slash_or_dot ext"
    by (simp add: has_final_extension_def)
  then show "createThumbnailFileName videoFileName = videoFileName @ ''-thumb.jpg''"
    by (simp add: createThumbnailFileName_def replace_extension_no_match)
next
  show "createThumbnailFileName ''clip'' = ''clip-thumb.jpg''"
    by (simp add: createThumbnailFileName_def)
next
  fix ext :: string
  assume "ext \<noteq> [] \<and> list_all not_slash_or_dot ext"
  then have "replace_extension ([] @ CHR ''.'' # ext) = []"
    by (intro replace_extension_strip) simp_all
  then show "createThumbnailFileName (''.'' @ ext) = ''-thumb.jpg''"
    by (simp add: createThumbnailFileName_def)
next
  show "createThumbnailFileName ''.mp4'' = ''-thumb.jpg''"
    by (simp add: createThumbnailFileName_def not_slash_or_dot_def)
qed

theorem createThumbnailFileName_without_extension_witness:
  "\<not> has_final_extension ''videos/clip''
   \<and> createThumbnailFileName ''videos/clip'' = ''videos/clip-thumb.jpg''
   \<and> ''webm'' \<noteq> [] \<and> list_all not_slash_or_dot ''webm''
   \<and> createThumbnailFileName (''.'' @ ''webm'') = ''-thumb.jpg''"
proof -
  have h: "\<not> has_final_extension ''videos/clip''"
    using has_final_extension_dot [of "''videos/clip''"] by auto
  have w: "''webm'' \<noteq> [] \<and> list_all not_slash_or_dot ''webm''"
    by (simp add: not_slash_or_dot_def)
  from createThumbnailFileName_without_extension [of "''videos/clip''"] h
  have a: "createThumbnailFileName ''videos/clip'' = ''videos/clip'' @ ''-thumb.jpg''"
    by blast
  from createThumbnailFileName_without_extension [of "''videos/clip''"]
  have "\<forall>ext. ext \<noteq> [] \<and> list_all not_slash_or_dot ext \<longrightarrow>
        createThumbnailFileName (''.'' @ ext) = ''-thumb.jpg''"
    by blast
  with w have b: "createThumbnailFileName (''.'' @ ''webm'') = ''-thumb.jpg''"
    by blast
  from h a w b show ?thesis by simp
qed

section \<open>The validation predicate (C7)\<close>

text \<open>
  C7. \<open>isValidVideoFile\<close> is true exactly when the declared media type of the file is
  one of the five strings \<^verbatim>\<open>video/mp4\<close>, \<^verbatim>\<open>video/webm\<close>, \<^verbatim>\<open>video/ogg\<close>, \<^verbatim>\<open>video/quicktime\<close>,
  \<^verbatim>\<open>video/x-msvideo\<close>; it is true for \<^verbatim>\<open>video/mp4\<close> and false for \<^verbatim>\<open>image/jpeg\<close>.
\<close>

theorem isValidVideoFile_iff:
  "(isValidVideoFile f \<longleftrightarrow>
      type f \<in> {''video/mp4'', ''video/webm'', ''video/ogg'', ''video/quicktime'',
        ''video/x-msvideo''})
   \<and> isValidVideoFile (f\<lparr>type := ''video/mp4''\<rparr>)
   \<and> \<not> isValidVideoFile (f\<lparr>type := ''image/jpeg''\<rparr>)"
  by (simp add: isValidVideoFile_def validTypes_def)

section \<open>The batch (C1, C2, C3, C4)\<close>

text \<open>
  C1. The claim: for a batch of N inputs of which K fail, \<open>onProgress\<close> is called N times,
  once after each item, failed or not, with \<open>completed\<close> going through 1..N; for three
  inputs of which the second is corrupt the calls are (1,3), (2,3), (3,3).
  The code calls \<open>onProgress\<close> inside the \<^verbatim>\<open>try\<close> block, after the \<^verbatim>\<open>await\<close>: a failed item
  is never reported. On the three inputs of the example, of which the second is corrupt,
  the calls are (1,3) and (3,3).
\<close>

theorem progress_skips_failed_input:
  "generateThumbnailFromVideo example_browser input2 (Finite 1) = Rejected (Error ''Video failed to load'')
   \<and> progress_calls (trace (batchGenerateThumbnails example_browser [input1, input2, input3]
        (Finite 1) (Some (\<lambda>completed total. None)))) = [(1, 3), (3, 3)]"
  by (simp add: batchGenerateThumbnails_def batch_loop.simps example_input1 example_input2 example_input3)

text \<open>
  C2. The claim: \<open>batchGenerateThumbnails\<close> never calls the extractor on an input that
  \<open>isValidVideoFile\<close> rejects. The batch does not look at the type of its inputs: given
  the one file \<open>photo\<close>, of type \<^verbatim>\<open>image/jpeg\<close>, it calls the extractor on it.
\<close>

theorem batch_extracts_rejected_file:
  "\<not> isValidVideoFile photo
   \<and> extractor_calls (trace (batchGenerateThumbnails example_browser [photo] (Finite 1) None)) = [photo]"
  by (simp add: batchGenerateThumbnails_def batch_loop.simps example_photo)
     (simp add: isValidVideoFile_def validTypes_def photo_def)

text \<open>
  C2, as amended. The files are filtered by the caller: \<open>handleFiles\<close> hands only the
  files that \<open>isValidVideoFile\<close> accepts to the batch, so every file that a call of
  \<open>handleFiles\<close> extracts is one of its files and is accepted by \<open>isValidVideoFile\<close>.
\<close>

theorem handleFiles_extracts_valid_only:
  "\<forall>f \<in> set (extracted (handleFiles b files)). isValidVideoFile f \<and> f \<in> set files"
proof -
  let ?vs = "filter isValidVideoFile files"
  let ?out = "batchGenerateThumbnails b ?vs (Finite 1) (Some (\<lambda>completed total. None))"
  from batch_prefix [of ?vs b "Finite 1"]
  obtain k where "extractor_calls (trace ?out) = take k ?vs" by blast
  then have "set (extracted (handleFiles b files)) \<subseteq> set ?vs"
    by (auto simp: handleFiles_def Let_def dest: in_set_takeD)
  then show ?thesis by auto
qed

theorem handleFiles_extracts_valid_only_witness:
  "extracted (handleFiles example_browser [photo, input1]) = [input1]
   \<and> isValidVideoFile input1 \<and> input1 \<in> set [photo, input1]"
proof -
  have v: "\<not> isValidVideoFile photo" "isValidVideoFile input1"
    by (simp_all add: isValidVideoFile_def validTypes_def photo_def input1_def)
  have "extracted (handleFiles example_browser [photo, input1]) = [input1]"
    by (simp add: handleFiles_def v batchGenerateThumbnails_def batch_loop.simps example_input1)
  with handleFiles_extracts_valid_only [of example_browser "[photo, input1]"] show ?thesis
    by simp
qed

text \<open>
  C3. For a batch of N inputs, each of which succeeds or fails, of which K fail: the
  batch comes to its \<^verbatim>\<open>return\<close> (no failure of an item leaves the loop: the model has
  the \<^verbatim>\<open>catch\<close> of every \<^verbatim>\<open>throw\<close> of the loop body, and a batch has no outcome but
  returning or waiting), every input has been tried, each failure is logged with
  \<^verbatim>\<open>console.error\<close>, the results are the inputs that did not fail, in order, and there
  are N - K of them.
\<close>

theorem batch_never_fails:
  assumes "\<forall>f\<in>set videoFiles. generateThumbnailFromVideo b f timeInSeconds \<noteq> Pending"
  shows "\<exists>s. batchGenerateThumbnails b videoFiles timeInSeconds onProgress = Returns s
      \<and> extractor_calls s = videoFiles
      \<and> length (results s) = length videoFiles
           - length (filter (\<lambda>f. rejected (generateThumbnailFromVideo b f timeInSeconds)) videoFiles)
      \<and> map result_file (results s)
           = filter (\<lambda>f. \<not> rejected (generateThumbnailFromVideo b f timeInSeconds)) videoFiles
      \<and> (\<forall>f e. f \<in> set videoFiles \<and> generateThumbnailFromVideo b f timeInSeconds = Rejected e
            \<longrightarrow> failure_log f e \<in> set (console_errors s))"
proof -
  let ?G = "\<lambda>f. generateThumbnailFromVideo b f timeInSeconds"
  from batch_returns [OF assms] obtain s where
    ret: "batchGenerateThumbnails b videoFiles timeInSeconds onProgress = Returns s"
    and calls: "extractor_calls s = videoFiles"
    and res: "results s = successes b timeInSeconds videoFiles"
    and logs: "\<forall>j e. j < length videoFiles \<and> ?G (videoFiles ! j) = Rejected e
            \<longrightarrow> failure_log (videoFiles ! j) e \<in> set (console_errors s)"
    by blast
  have eq: "filter (\<lambda>f. fulfilled (?G f)) videoFiles = filter (\<lambda>f. \<not> rejected (?G f)) videoFiles"
  proof (rule filter_cong [OF refl])
    fix f assume "f \<in> set videoFiles"
    with assms have "?G f \<noteq> Pending" by blast
    then show "fulfilled (?G f) = (\<not> rejected (?G f))" by (cases "?G f") simp_all
  qed
  have files: "map result_file (results s) = filter (\<lambda>f. \<not> rejected (?G f)) videoFiles"
    using res eq by (simp add: map_result_file_successes)
  have "length (map result_file (results s)) + length (filter (\<lambda>f. rejected (?G f)) videoFiles)
      = length videoFiles"
    unfolding files using sum_length_filter_compl [of "\<lambda>f. rejected (?G f)" videoFiles] by simp
  then have len: "length (results s) = length videoFiles
      - length (filter (\<lambda>f. rejected (?G f)) videoFiles)"
    by simp
  have "\<forall>f e. f \<in> set videoFiles \<and> ?G f = Rejected e \<longrightarrow> failure_log f e \<in> set (console_errors s)"
    using logs by (metis in_set_conv_nth)
  with ret calls len files show ?thesis by blast
qed

theorem batch_never_fails_witness:
  "generateThumbnailFromVideo example_browser input1 (Finite 1) \<noteq> Pending
   \<and> generateThumbnailFromVideo example_browser input2 (Finite 1) \<noteq> Pending
   \<and> generateThumbnailFromVideo example_browser input3 (Finite 1) \<noteq> Pending
   \<and> batchGenerateThumbnails example_browser [input1, input2, input3] (Finite 1) None
       = Returns (trace (batchGenerateThumbnails example_browser [input1, input2, input3] (Finite 1) None))
   \<and> length (results (trace (batchGenerateThumbnails example_browser [input1, input2, input3]
        (Finite 1) None))) = 2
   \<and> map result_file (results (trace (batchGenerateThumbnails example_browser
        [input1, input2, input3] (Finite 1) None))) = [input1, input3]
   \<and> failure_log input2 (Error ''Video failed to load'')
       \<in> set (console_errors (trace (batchGenerateThumbnails example_browser [input1, input2, input3]
            (Finite 1) None)))"
proof -
  have h: "\<forall>f\<in>set [input1, input2, input3].
      generateThumbnailFromVideo example_browser f (Finite 1) \<noteq> Pending"
    by (simp add: example_input1 example_input2 example_input3)
  from batch_never_fails [OF h, of None] h show ?thesis
    by (auto simp: example_input1 example_input2 example_input3)
qed

text \<open>
  C4. The batch goes through its inputs in order, one at a time. At any outcome the
  extractor has been called on a prefix of the inputs, once each and in their order, and
  the results are the successful ones among them, in that order. If the batch returns,
  that prefix is the whole list. If the promise of item \<open>n\<close> never settles, the batch
  waits there for ever, and no item after \<open>n\<close> is ever begun.
\<close>

theorem batch_is_sequential:
  "(\<exists>k\<le>length videoFiles.
      extractor_calls (trace (batchGenerateThumbnails b videoFiles t onProgress)) = take k videoFiles
      \<and> map result_file (results (trace (batchGenerateThumbnails b videoFiles t onProgress)))
          = filter (\<lambda>f. fulfilled (generateThumbnailFromVideo b f t)) (take k videoFiles))
   \<and> (\<forall>s. batchGenerateThumbnails b videoFiles t onProgress = Returns s \<longrightarrow>
        extractor_calls s = videoFiles
        \<and> map result_file (results s)
            = filter (\<lambda>f. fulfilled (generateThumbnailFromVideo b f t)) videoFiles)
   \<and> (\<forall>n. n < length videoFiles \<and> generateThumbnailFromVideo b (videoFiles ! n) t = Pending \<longrightarrow>
        (\<exists>s. batchGenerateThumbnails b videoFiles t onProgress = Awaits s
           \<and> length (extractor_calls s) \<le> Suc n))"
proof (intro conjI allI impI)
  from batch_prefix [of videoFiles b t onProgress]
  show "\<exists>k\<le>length videoFiles.
      extractor_calls (trace (batchGenerateThumbnails b videoFiles t onProgress)) = take k videoFiles
      \<and> map result_file (results (trace (batchGenerateThumbnails b videoFiles t onProgress)))
          = filter (\<lambda>f. fulfilled (generateThumbnailFromVideo b f t)) (take k videoFiles)"
    by (auto simp: map_result_file_successes)
next
  fix n
  assume "n < length videoFiles \<and> generateThumbnailFromVideo b (videoFiles ! n) t = Pending"
  then have n: "n < length videoFiles"
    and "generateThumbnailFromVideo b (videoFiles ! n) t = Pending" by simp_all
  from first_pending [OF this] obtain m where m: "m \<le> n"
    and p: "generateThumbnailFromVideo b (videoFiles ! m) t = Pending"
    and f: "\<forall>j<m. generateThumbnailFromVideo b (videoFiles ! j) t \<noteq> Pending"
    by blast
  from m n have "m < length videoFiles" by simp
  from batch_awaits [OF this p f] obtain s where
    "batchGenerateThumbnails b videoFiles t onProgress = Awaits s"
    "extractor_calls s = take (Suc m) videoFiles"
    by blast
  with m show "\<exists>s. batchGenerateThumbnails b videoFiles t onProgress = Awaits s
           \<and> length (extractor_calls s) \<le> Suc n"
    by simp
next
  fix s
  assume ret: "batchGenerateThumbnails b videoFiles t onProgress = Returns s"
  have all: "\<forall>f\<in>set videoFiles. generateThumbnailFromVideo b f t \<noteq> Pending"
  proof (rule ccontr)
    assume "\<not> ?thesis"
    then obtain n where n: "n < length videoFiles"
      and "generateThumbnailFromVideo b (videoFiles ! n) t = Pending"
      by (metis in_set_conv_nth)
    from first_pending [OF this] obtain m where m: "m \<le> n"
      and p: "generateThumbnailFromVideo b (videoFiles ! m) t = Pending"
      and f: "\<forall>j<m. generateThumbnailFromVideo b (videoFiles ! j) t \<noteq> Pending"
      by blast
    from m n have "m < length videoFiles" by simp
    from batch_awaits [OF this p f, of onProgress] ret show False by auto
  qed
  from batch_returns [OF all, of onProgress] ret
  show "extractor_calls s = videoFiles" by auto
  from batch_returns [OF all, of onProgress] ret
  show "map result_file (results s)
      = filter (\<lambda>f. fulfilled (generateThumbnailFromVideo b f t)) videoFiles"
    by (auto simp: map_result_file_successes)
qed

theorem batch_is_sequential_witness:
  "(1 < length [input1, stalled, input3]
     \<and> generateThumbnailFromVideo example_browser ([input1, stalled, input3] ! 1) (Finite 1) = Pending)
   \<and> batchGenerateThumbnails example_browser [input1, stalled, input3] (Finite 1) None
       = Awaits (trace (batchGenerateThumbnails example_browser [input1, stalled, input3] (Finite 1) None))
   \<and> extractor_calls (trace (batchGenerateThumbnails example_browser [input1, stalled, input3]
        (Finite 1) None)) = [input1, stalled]
   \<and> map result_file (results (trace (batchGenerateThumbnails example_browser
        [input1, stalled, input3] (Finite 1) None))) = [input1]"
proof -
  let ?fs = "[input1, stalled, input3]"
  let ?out = "batchGenerateThumbnails example_browser ?fs (Finite 1) None"
  have p: "generateThumbnailFromVideo example_browser stalled (Finite 1) = Pending"
    by (simp add: example_simps stalled_def)
  then have h: "1 < length ?fs \<and> generateThumbnailFromVideo example_browser (?fs ! 1) (Finite 1) = Pending"
    by simp
  from batch_is_sequential [of ?fs example_browser "Finite 1" None]
  have seq: "\<forall>n. n < length ?fs \<and> generateThumbnailFromVideo example_browser (?fs ! n) (Finite 1) = Pending \<longrightarrow>
        (\<exists>s. ?out = Awaits s \<and> length (extractor_calls s) \<le> Suc n)"
    and pre: "\<exists>k\<le>length ?fs. extractor_calls (trace ?out) = take k ?fs
      \<and> map result_file (results (trace ?out))
          = filter (\<lambda>f. fulfilled (generateThumbnailFromVideo example_browser f (Finite 1))) (take k ?fs)"
    by blast+
  from seq h obtain s where a: "?out = Awaits s" and le: "length (extractor_calls s) \<le> 2"
    by (metis Suc_1)
  have c: "extractor_calls (trace ?out) = [input1, stalled]"
    by (simp add: batchGenerateThumbnails_def batch_loop.simps example_input1 p)
  have r: "map result_file (results (trace ?out)) = [input1]"
    by (simp add: batchGenerateThumbnails_def batch_loop.simps example_input1 p)
  from a c r h show ?thesis by simp
qed

section \<open>The extractor (C5, C8, C9)\<close>

text \<open>
  C5. For every video and every requested offset (a non-negative number of seconds, as
  the contract of the extractor has it; \<^verbatim>\<open>Infinity\<close> is let in for a clip that ends), the
  frame is captured at the clamped offset \<^verbatim>\<open>Math.min(offsetSeconds, duration)\<close> (on finite
  numbers, the smaller of the two): that is the position the video is sought to once the
  metadata is there, the position of the frame that every \<^verbatim>\<open>toBlob\<close> call finds drawn on
  the canvas, and the position of the frame in the image the promise resolves with.
  When the duration is less than the requested offset it is the duration: an offset past
  the end of a clip that loads, seeks and encodes in the ordinary way gives the frame at
  the duration, not a failure.
\<close>

theorem capture_offset_is_clamped:
  assumes "getContext_2d b"
    and "events b video = LoadedMetadata w h duration # rest"
    and "list_all (\<lambda>e. \<not> is_LoadedMetadata e) rest"
    and "non_negative offsetSeconds" and "non_negative duration"
    and "offsetSeconds \<noteq> Infinity \<or> duration \<noteq> Infinity"
  shows "currentTime (executor b video offsetSeconds) = Math_min offsetSeconds duration
      \<and> (\<forall>x y. Math_min (Finite x) (Finite y) = Finite (min x y))
      \<and> (less_number duration offsetSeconds \<longrightarrow>
            currentTime (executor b video offsetSeconds) = duration)
      \<and> (\<forall>img\<in>set (toBlobCalls (executor b video offsetSeconds)).
            image_frame img = Some (Math_min offsetSeconds duration))
      \<and> (\<forall>img. generateThumbnailFromVideo b video offsetSeconds = Fulfilled (ObjectURL img) \<longrightarrow>
            image_frame img = Some (Math_min offsetSeconds duration))
      \<and> ((\<exists>rest'. rest = Seeked ToBlobReturns # ToBlobCallback 0 True # rest') \<longrightarrow>
            (\<exists>img. generateThumbnailFromVideo b video offsetSeconds = Fulfilled (ObjectURL img)
               \<and> image_frame img = Some (Math_min offsetSeconds duration)))
      \<and> (less_number duration offsetSeconds
            \<and> (\<exists>rest'. rest = Seeked ToBlobReturns # ToBlobCallback 0 True # rest') \<longrightarrow>
            (\<exists>img. generateThumbnailFromVideo b video offsetSeconds = Fulfilled (ObjectURL img)
               \<and> image_frame img = Some duration))"
proof -
  have pos: "sought offsetSeconds duration = Math_min offsetSeconds duration"
    using assms(4-6) by (rule sought_in_range)
  from executor_loaded [OF assms(1-3), of offsetSeconds] pos
  have inv: "loaded w h (Math_min offsetSeconds duration) (executor b video offsetSeconds)"
    by simp
  have clamp: "Math_min offsetSeconds duration = duration" if "less_number duration offsetSeconds"
    using that by (rule Math_min_less)
  have "currentTime (executor b video offsetSeconds) = Math_min offsetSeconds duration"
    using inv by (simp add: loaded_def)
  moreover have "\<forall>x y. Math_min (Finite x) (Finite y) = Finite (min x y)"
    by (auto simp: Math_min_def)
  moreover have "\<forall>img\<in>set (toBlobCalls (executor b video offsetSeconds)).
            image_frame img = Some (Math_min offsetSeconds duration)"
    using inv by (auto simp: loaded_def jpeg_def)
  moreover have "\<forall>img. generateThumbnailFromVideo b video offsetSeconds = Fulfilled (ObjectURL img) \<longrightarrow>
            image_frame img = Some (Math_min offsetSeconds duration)"
    using inv by (auto simp: loaded_def generateThumbnailFromVideo_def jpeg_def)
  moreover have live: "\<exists>img. generateThumbnailFromVideo b video offsetSeconds = Fulfilled (ObjectURL img)
               \<and> image_frame img = Some (Math_min offsetSeconds duration)"
    if "\<exists>rest'. rest = Seeked ToBlobReturns # ToBlobCallback 0 True # rest'"
  proof -
    from that assms(2) obtain rest' where
      "events b video = LoadedMetadata w h duration # Seeked ToBlobReturns # ToBlobCallback 0 True # rest'"
      by blast
    from executor_orderly [OF assms(1) this, of offsetSeconds] pos
    show ?thesis by (simp add: jpeg_def)
  qed
  ultimately show ?thesis using clamp by auto
qed

theorem capture_offset_is_clamped_witness:
  "non_negative (Finite 15) \<and> non_negative (Finite 10) \<and> less_number (Finite 10) (Finite 15)
   \<and> currentTime (executor example_browser input1 (Finite 15)) = Finite 10
   \<and> generateThumbnailFromVideo example_browser input1 (Finite 15)
       = Fulfilled (ObjectURL (jpeg 640 360 (Finite 10)))"
proof -
  have g: "getContext_2d example_browser"
    and e: "events example_browser input1
      = LoadedMetadata 640 360 (Finite 10) # [Seeked ToBlobReturns, ToBlobCallback 0 True]"
    and l: "list_all (\<lambda>e. \<not> is_LoadedMetadata e) [Seeked ToBlobReturns, ToBlobCallback 0 True]"
    by (simp_all add: example_browser_def input1_def)
  have n: "non_negative (Finite 15)" "non_negative (Finite 10)"
    and i: "Finite 15 \<noteq> Infinity \<or> Finite 10 \<noteq> Infinity"
    by simp_all
  have less: "less_number (Finite 10) (Finite 15)" by simp
  from capture_offset_is_clamped [OF g e l n i] less
  have "currentTime (executor example_browser input1 (Finite 15)) = Finite 10"
    and "\<exists>img. generateThumbnailFromVideo example_browser input1 (Finite 15)
          = Fulfilled (ObjectURL img) \<and> image_frame img = Some (Finite 10)"
    by blast+
  moreover have "generateThumbnailFromVideo example_browser input1 (Finite 15)
       = Fulfilled (ObjectURL (jpeg 640 360 (Finite 10)))"
    by (simp add: example_simps jpeg_def)
  ultimately show ?thesis using less n by simp
qed

text \<open>
  C8. For a video that loads (whatever its duration and the offset, so in particular
  when the duration is at least the offset): the canvas is given the size \<open>videoWidth\<close>
  by \<open>videoHeight\<close>, every image asked of the encoder is a JPEG of that size at quality
  0.8, and an image the promise resolves with is such a one. When the video also seeks
  and encodes in the ordinary way, the promise does resolve.
\<close>

theorem thumbnail_is_native_size_jpeg:
  assumes "getContext_2d b"
    and "events b video = LoadedMetadata videoWidth videoHeight duration # rest"
    and "list_all (\<lambda>e. \<not> is_LoadedMetadata e) rest"
  shows "canvas_width (executor b video t) = videoWidth
      \<and> canvas_height (executor b video t) = videoHeight
      \<and> (\<forall>img\<in>set (toBlobCalls (executor b video t)).
            image_width img = videoWidth \<and> image_height img = videoHeight
            \<and> image_type img = ''image/jpeg'' \<and> image_quality img = 0.8)
      \<and> (\<forall>u. generateThumbnailFromVideo b video t = Fulfilled u \<longrightarrow>
            (\<exists>img. u = ObjectURL img
               \<and> image_width img = videoWidth \<and> image_height img = videoHeight
               \<and> image_type img = ''image/jpeg'' \<and> image_quality img = 0.8))
      \<and> ((\<exists>rest'. rest = Seeked ToBlobReturns # ToBlobCallback 0 True # rest') \<longrightarrow>
            fulfilled (generateThumbnailFromVideo b video t))"
proof -
  from executor_loaded [OF assms]
  have inv: "loaded videoWidth videoHeight (sought t duration) (executor b video t)" .
  have "fulfilled (generateThumbnailFromVideo b video t)"
    if "\<exists>rest'. rest = Seeked ToBlobReturns # ToBlobCallback 0 True # rest'"
  proof -
    from that assms(2) obtain rest' where
      "events b video = LoadedMetadata videoWidth videoHeight duration
         # Seeked ToBlobReturns # ToBlobCallback 0 True # rest'"
      by blast
    from executor_orderly [OF assms(1) this, of t] show ?thesis by simp
  qed
  with inv show ?thesis
    by (auto simp: loaded_def generateThumbnailFromVideo_def jpeg_def)
qed

theorem thumbnail_is_native_size_jpeg_witness:
  "getContext_2d example_browser
   \<and> events example_browser input1
       = LoadedMetadata 640 360 (Finite 10) # [Seeked ToBlobReturns, ToBlobCallback 0 True]
   \<and> list_all (\<lambda>e. \<not> is_LoadedMetadata e) [Seeked ToBlobReturns, ToBlobCallback 0 True]
   \<and> fulfilled (generateThumbnailFromVideo example_browser input1 (Finite 1))
   \<and> canvas_width (executor example_browser input1 (Finite 1)) = 640
   \<and> canvas_height (executor example_browser input1 (Finite 1)) = 360"
proof -
  have g: "getContext_2d example_browser"
    and e: "events example_browser input1
      = LoadedMetadata 640 360 (Finite 10) # [Seeked ToBlobReturns, ToBlobCallback 0 True]"
    and l: "list_all (\<lambda>e. \<not> is_LoadedMetadata e) [Seeked ToBlobReturns, ToBlobCallback 0 True]"
    by (simp_all add: example_browser_def input1_def)
  from thumbnail_is_native_size_jpeg [OF g e l, of "Finite 1"] g e l show ?thesis
    by blast
qed

text \<open>
  C9. The claim: the extractor rejects in exactly three cases (the resource cannot be
  opened or decoded, the encoder gives no bytes, the canvas context cannot be had).
  There is a fourth: what \<^verbatim>\<open>drawImage\<close> or \<^verbatim>\<open>toBlob\<close> throws in the \<^verbatim>\<open>seeked\<close> listener is
  caught and rejects the promise as it is. For the file \<open>broken\<close> of the example the
  promise is rejected with the exception of \<^verbatim>\<open>drawImage\<close>, which is none of the three
  errors.
\<close>

theorem rejection_with_thrown_exception:
  "generateThumbnailFromVideo example_browser broken (Finite 1)
     = Rejected (DOMException ''InvalidStateError'' ''broken video'')
   \<and> DOMException ''InvalidStateError'' ''broken video'' \<noteq> Error ''Video failed to load''
   \<and> DOMException ''InvalidStateError'' ''broken video'' \<noteq> Error ''Failed to create thumbnail blob''
   \<and> DOMException ''InvalidStateError'' ''broken video'' \<noteq> Error ''Canvas context not available''"
  by (simp add: example_simps broken_def)

text \<open>
  C9, as amended. The extractor rejects in four cases, each handed to its caller as the
  rejection of the promise: with \<^verbatim>\<open>Error('Canvas context not available')\<close> when the canvas
  context cannot be had, which is checked first, before the video is given a source;
  with \<^verbatim>\<open>Error('Video failed to load')\<close> on the \<^verbatim>\<open>error\<close> event of the video; with
  \<^verbatim>\<open>Error('Failed to create thumbnail blob')\<close> when the encoder answers \<^verbatim>\<open>null\<close>; and with
  the exception that \<^verbatim>\<open>drawImage\<close> or \<^verbatim>\<open>toBlob\<close> throws in the \<^verbatim>\<open>seeked\<close> listener. It
  rejects in no other case.
\<close>

theorem extractor_rejections:
  "(\<forall>e. generateThumbnailFromVideo b video t = Rejected e \<longrightarrow>
       (\<not> getContext_2d b \<and> e = Error ''Canvas context not available'')
       \<or> (getContext_2d b \<and> cause (events b video) e))
   \<and> (\<not> getContext_2d b \<longrightarrow>
        generateThumbnailFromVideo b video t = Rejected (Error ''Canvas context not available'')
        \<and> src (executor b video t) = None)
   \<and> (getContext_2d b \<and> (\<exists>rest. events b video = ErrorEvent # rest) \<longrightarrow>
        generateThumbnailFromVideo b video t = Rejected (Error ''Video failed to load''))
   \<and> (getContext_2d b \<and> (\<exists>w h d rest. events b video
          = LoadedMetadata w h d # Seeked ToBlobReturns # ToBlobCallback 0 False # rest) \<longrightarrow>
        generateThumbnailFromVideo b video t = Rejected (Error ''Failed to create thumbnail blob''))
   \<and> (\<forall>e. getContext_2d b \<and> (\<exists>w h d rest. events b video
          = LoadedMetadata w h d # Seeked (DrawImageThrows e) # rest
          \<or> events b video = LoadedMetadata w h d # Seeked (ToBlobThrows e) # rest) \<longrightarrow>
        generateThumbnailFromVideo b video t = Rejected e)"
proof (intro conjI allI impI)
  fix e
  assume r: "generateThumbnailFromVideo b video t = Rejected e"
  show "(\<not> getContext_2d b \<and> e = Error ''Canvas context not available'')
       \<or> (getContext_2d b \<and> cause (events b video) e)"
  proof (cases "getContext_2d b")
    case False
    with r show ?thesis
      by (simp add: generateThumbnailFromVideo_def executor_def reject_def)
  next
    case True
    with r have "promise (foldl (handle t)
        \<lparr>src = Some video, currentTime = Finite 0, canvas_width = 300, canvas_height = 150,
          canvas_frame = None, toBlobCalls = [], promise = Pending\<rparr> (events b video)) = Rejected e"
      by (simp add: generateThumbnailFromVideo_def executor_def)
    from foldl_rejects [OF this] True show ?thesis by simp
  qed
next
  assume "\<not> getContext_2d b"
  then show "generateThumbnailFromVideo b video t = Rejected (Error ''Canvas context not available'')"
    by (simp add: generateThumbnailFromVideo_def executor_def reject_def)
next
  assume "\<not> getContext_2d b"
  then show "src (executor b video t) = None"
    by (simp add: executor_def)
next
  assume "getContext_2d b \<and> (\<exists>rest. events b video = ErrorEvent # rest)"
  then show "generateThumbnailFromVideo b video t = Rejected (Error ''Video failed to load'')"
    by (auto simp: generateThumbnailFromVideo_def executor_def foldl_settled listener_defs)
next
  assume "getContext_2d b \<and> (\<exists>w h d rest. events b video
          = LoadedMetadata w h d # Seeked ToBlobReturns # ToBlobCallback 0 False # rest)"
  then obtain w h d rest where g: "getContext_2d b"
    and e: "events b video = LoadedMetadata w h d # Seeked ToBlobReturns # ToBlobCallback 0 False # rest"
    by blast
  from executor_metadata_first [OF g e, of t] seeked_rejections(1)
  show "generateThumbnailFromVideo b video t = Rejected (Error ''Failed to create thumbnail blob'')"
    by (auto simp: generateThumbnailFromVideo_def simp del: foldl_Cons)
next
  fix e
  assume "getContext_2d b \<and> (\<exists>w h d rest. events b video
          = LoadedMetadata w h d # Seeked (DrawImageThrows e) # rest
          \<or> events b video = LoadedMetadata w h d # Seeked (ToBlobThrows e) # rest)"
  then obtain w h d rest where g: "getContext_2d b"
    and e: "events b video = LoadedMetadata w h d # Seeked (DrawImageThrows e) # rest
          \<or> events b video = LoadedMetadata w h d # Seeked (ToBlobThrows e) # rest"
    by blast
  from e show "generateThumbnailFromVideo b video t = Rejected e"
  proof
    assume "events b video = LoadedMetadata w h d # Seeked (DrawImageThrows e) # rest"
    from executor_metadata_first [OF g this, of t] seeked_rejections(2) show ?thesis
      by (auto simp: generateThumbnailFromVideo_def simp del: foldl_Cons)
  next
    assume "events b video = LoadedMetadata w h d # Seeked (ToBlobThrows e) # rest"
    from executor_metadata_first [OF g this, of t] seeked_rejections(3) show ?thesis
      by (auto simp: generateThumbnailFromVideo_def simp del: foldl_Cons)
  qed
qed

theorem extractor_rejections_witness:
  "generateThumbnailFromVideo example_browser input2 (Finite 1) = Rejected (Error ''Video failed to load'')
   \<and> getContext_2d example_browser
   \<and> cause (events example_browser input2) (Error ''Video failed to load'')
   \<and> generateThumbnailFromVideo (example_browser\<lparr>getContext_2d := False\<rparr>) input2 (Finite 1)
       = Rejected (Error ''Canvas context not available'')
   \<and> src (executor (example_browser\<lparr>getContext_2d := False\<rparr>) input2 (Finite 1)) = None"
proof -
  have r: "generateThumbnailFromVideo example_browser input2 (Finite 1)
      = Rejected (Error ''Video failed to load'')"
    by (simp add: example_simps)
  have g: "getContext_2d example_browser" "\<not> getContext_2d (example_browser\<lparr>getContext_2d := False\<rparr>)"
    by (simp_all add: example_browser_def)
  from extractor_rejections [of example_browser input2 "Finite 1"] r g(1)
  have "cause (events example_browser input2) (Error ''Video failed to load'')"
    by blast
  moreover from extractor_rejections [of "example_browser\<lparr>getContext_2d := False\<rparr>" input2 "Finite 1"] g(2)
  have "generateThumbnailFromVideo (example_browser\<lparr>getContext_2d := False\<rparr>) input2 (Finite 1)
       = Rejected (Error ''Canvas context not available'')
   \<and> src (executor (example_browser\<lparr>getContext_2d := False\<rparr>) input2 (Finite 1)) = None"
    by blast
  ultimately show ?thesis using r g(1) by simp
qed

end
